theory Spec2Isabelle
  imports Main "HOL-Library.Word"
begin

unbundle bit_operations_syntax

section \<open>The metadata record and the parse flags (src/lib/xml/metadata.c)\<close>

text \<open>
  \<^verbatim>\<open>struct SolMetadata { sol_atomic_t eatom; char *package_name; char *component; }\<close>.
  A \<^verbatim>\<open>char *\<close> that may be \<^verbatim>\<open>NULL\<close> is a \<open>string option\<close>; \<open>None\<close> is the absent
  field. The reference count \<^verbatim>\<open>eatom\<close> is never read or written by the functions below
  and is left out.
\<close>

record SolMetadata =
  package_name :: "string option"
  component :: "string option"

text \<open>The enum \<^verbatim>\<open>SolMetadataParseFlags\<close>: each constant is \<^verbatim>\<open>1 << n\<close> of a C int.\<close>

type_synonym SolMetadataParseFlags = "32 word"

definition MDATA_MIN :: SolMetadataParseFlags where
  "MDATA_MIN = push_bit 0 1"

definition MDATA_ROOT :: SolMetadataParseFlags where
  "MDATA_ROOT = push_bit 1 1"

definition MDATA_PACKAGE :: SolMetadataParseFlags where
  "MDATA_PACKAGE = push_bit 2 1"

definition MDATA_HISTORY :: SolMetadataParseFlags where
  "MDATA_HISTORY = push_bit 3 1"

definition MDATA_SOURCE :: SolMetadataParseFlags where
  "MDATA_SOURCE = push_bit 4 1"

definition MDATA_NAME :: SolMetadataParseFlags where
  "MDATA_NAME = push_bit 5 1"

definition MDATA_COMPONENT :: SolMetadataParseFlags where
  "MDATA_COMPONENT = push_bit 6 1"

definition MDATA_PACKAGER :: SolMetadataParseFlags where
  "MDATA_PACKAGER = push_bit 7 1"

definition MDATA_EMAIL :: SolMetadataParseFlags where
  "MDATA_EMAIL = push_bit 8 1"

text \<open>
  \<^verbatim>\<open>struct MetaMap { const char *key; SolMetadataParseFlags flag; }\<close> and the table
  \<^verbatim>\<open>meta_mapping\<close>, with its terminating entry \<^verbatim>\<open>{ 0 }\<close> (a \<^verbatim>\<open>NULL\<close> key).
\<close>

record MetaMap =
  key :: "string option"
  flag :: SolMetadataParseFlags

definition meta_mapping :: "MetaMap list" where
  "meta_mapping =
     [\<lparr>key = Some ''Package'', flag = MDATA_PACKAGE\<rparr>,
      \<lparr>key = Some ''History'', flag = MDATA_HISTORY\<rparr>,
      \<lparr>key = Some ''Source'', flag = MDATA_SOURCE\<rparr>,
      \<lparr>key = Some ''Name'', flag = MDATA_NAME\<rparr>,
      \<lparr>key = Some ''PartOf'', flag = MDATA_COMPONENT\<rparr>,
      \<lparr>key = Some ''Packager'', flag = MDATA_PACKAGER\<rparr>,
      \<lparr>key = Some ''Email'', flag = MDATA_EMAIL\<rparr>,
      \<lparr>key = None, flag = 0\<rparr>]"

text \<open>
  \<^verbatim>\<open>struct SolMetadataParseContext { SolMetadataParseFlags flags; SolMetadata *metadata; }\<close>.
  During one load the context is the only path to the record, so the pointed-to record
  is held by value and written back when the parse ends.
\<close>

record SolMetadataParseContext =
  flags :: SolMetadataParseFlags
  metadata :: SolMetadata

section \<open>Library functions the handlers call\<close>

text \<open>
  libxml2's \<^verbatim>\<open>xmlStrEqual\<close> on two non-\<^verbatim>\<open>NULL\<close> strings: byte-wise equality.
\<close>

definition xmlStrEqual :: "string \<Rightarrow> string \<Rightarrow> bool" where
  "xmlStrEqual s t = (s = t)"

text \<open>
  The C library's \<^verbatim>\<open>strndup(s, n)\<close>: a copy of at most \<open>n\<close> bytes of \<open>s\<close>, ending
  before the first NUL byte. Allocation is taken to succeed.
\<close>

definition strndup :: "string \<Rightarrow> nat \<Rightarrow> string" where
  "strndup s n = takeWhile (\<lambda>c. c \<noteq> CHR 0x00) (take n s)"

section \<open>The tag tracker\<close>

definition sol_sax_in_root :: "SolMetadataParseContext \<Rightarrow> bool" where
  "sol_sax_in_root self = (flags self AND MDATA_ROOT \<noteq> 0)"

text \<open>
  \<^verbatim>\<open>sol_sax_flip_state\<close> returns whether the name matched, and the context with the flag
  flipped when it did.
\<close>

definition sol_sax_flip_state ::
  "SolMetadataParseContext \<Rightarrow> string \<Rightarrow> string \<Rightarrow> SolMetadataParseFlags
     \<Rightarrow> bool \<times> SolMetadataParseContext" where
  "sol_sax_flip_state self name k fl =
     (if \<not> xmlStrEqual name k then (False, self)
      else (True, self\<lparr>flags := flags self XOR fl\<rparr>))"

text \<open>
  The \<^verbatim>\<open>for\<close> loop of \<^verbatim>\<open>sol_sax_flip_states\<close> over the entries of the table that are
  still to be visited: it stops at the entry with no key, and at the first entry whose
  key matches.
\<close>

fun flip_states_loop ::
  "SolMetadataParseContext \<Rightarrow> string \<Rightarrow> MetaMap list \<Rightarrow> SolMetadataParseContext" where
  "flip_states_loop self name [] = self"
| "flip_states_loop self name (m # ms) =
     (case key m of
        None \<Rightarrow> self
      | Some k \<Rightarrow>
          (case sol_sax_flip_state self name k (flag m) of
             (True, self') \<Rightarrow> self'
           | (False, self') \<Rightarrow> flip_states_loop self' name ms))"

definition sol_sax_flip_states ::
  "SolMetadataParseContext \<Rightarrow> string \<Rightarrow> SolMetadataParseContext" where
  "sol_sax_flip_states self name =
     (case sol_sax_flip_state self name ''PISI'' MDATA_ROOT of
        (True, self') \<Rightarrow> self'
      | (False, self') \<Rightarrow>
          (case sol_sax_flip_state self' name ''SOL'' MDATA_ROOT of
             (True, self'') \<Rightarrow> self''
           | (False, self'') \<Rightarrow>
               if \<not> sol_sax_in_root self'' then self''
               else flip_states_loop self'' name meta_mapping))"

definition sol_sax_start_element ::
  "SolMetadataParseContext \<Rightarrow> string \<Rightarrow> SolMetadataParseContext" where
  "sol_sax_start_element udata name = sol_sax_flip_states udata name"

definition sol_sax_end_element ::
  "SolMetadataParseContext \<Rightarrow> string \<Rightarrow> SolMetadataParseContext" where
  "sol_sax_end_element udata name = sol_sax_flip_states udata name"

section \<open>The extractor\<close>

definition sol_sax_characters ::
  "SolMetadataParseContext \<Rightarrow> string \<Rightarrow> nat \<Rightarrow> SolMetadataParseContext" where
  "sol_sax_characters self ch len =
     (if flags self = (MDATA_ROOT OR MDATA_PACKAGE OR MDATA_NAME)
      then self\<lparr>metadata := (metadata self)\<lparr>package_name := Some (strndup ch len)\<rparr>\<rparr>
      else if flags self AND MDATA_COMPONENT \<noteq> 0
      then self\<lparr>metadata := (metadata self)\<lparr>component := Some (strndup ch len)\<rparr>\<rparr>
      else self)"

definition sol_metadata_clean :: "SolMetadata \<Rightarrow> SolMetadata" where
  "sol_metadata_clean self = self\<lparr>package_name := None, component := None\<rparr>"

text \<open>\<^verbatim>\<open>sol_metadata_new\<close>: the record as \<^verbatim>\<open>calloc\<close> leaves it, both pointers \<^verbatim>\<open>NULL\<close>.\<close>

definition sol_metadata_new :: SolMetadata where
  "sol_metadata_new = \<lparr>package_name = None, component = None\<rparr>"

section \<open>The tokenizer, as the handlers see it\<close>

text \<open>
  libxml2 is not part of the program. What \<^verbatim>\<open>sol_metadata_load\<close> observes of it is:
  whether \<^verbatim>\<open>xmlCreateFileParserCtxt\<close> gave a context; the calls \<^verbatim>\<open>xmlParseDocument\<close>
  makes to the three registered handlers, in order; and the context's \<^verbatim>\<open>wellFormed\<close>
  field afterwards. A source is therefore given by this outcome. A character event
  carries the \<open>len\<close> bytes at \<open>ch\<close>; the attributes of a start tag are unused by the
  handler and left out. The text of one element need not arrive as one event: a SAX
  tokenizer reports an entity reference and the runs of text around it separately, and
  cuts long text into pieces.
\<close>

datatype sax_event =
  StartElement string
| EndElement string
| Characters string

datatype xml_source =
  NoContext
| Parsed "sax_event list" bool

definition sax_dispatch :: "SolMetadataParseContext \<Rightarrow> sax_event \<Rightarrow> SolMetadataParseContext" where
  "sax_dispatch udata ev =
     (case ev of
        StartElement name \<Rightarrow> sol_sax_start_element udata name
      | EndElement name \<Rightarrow> sol_sax_end_element udata name
      | Characters ch \<Rightarrow> sol_sax_characters udata ch (length ch))"

fun xmlParseDocument ::
  "SolMetadataParseContext \<Rightarrow> sax_event list \<Rightarrow> SolMetadataParseContext" where
  "xmlParseDocument udata [] = udata"
| "xmlParseDocument udata (ev # evs) = xmlParseDocument (sax_dispatch udata ev) evs"

section \<open>Loading and the accessors\<close>

text \<open>
  \<^verbatim>\<open>sol_metadata_load\<close> returns its boolean, and the record as the call leaves it. The
  messages to \<^verbatim>\<open>stderr\<close> and the freeing of the parser's own structures touch nothing
  the accessors read. The record is never \<^verbatim>\<open>NULL\<close>, as the assertions demand.
\<close>

definition sol_metadata_load :: "SolMetadata \<Rightarrow> xml_source \<Rightarrow> bool \<times> SolMetadata" where
  "sol_metadata_load meta src =
     (case src of
        NoContext \<Rightarrow> (False, meta)
      | Parsed evs good \<Rightarrow>
          (let instance = \<lparr>flags = 0, metadata = meta\<rparr>;
               meta' = metadata (xmlParseDocument instance evs)
           in if \<not> good then (False, sol_metadata_clean meta') else (good, meta')))"

definition sol_metadata_get_package_name :: "SolMetadata \<Rightarrow> string option" where
  "sol_metadata_get_package_name meta = package_name meta"

definition sol_metadata_get_component :: "SolMetadata \<Rightarrow> string option" where
  "sol_metadata_get_component meta = component meta"

section \<open>Notions the properties are stated with\<close>

text \<open>
  The flags a parse that starts with flags \<open>f\<close> holds after the events \<open>evs\<close>, read
  off the handlers themselves; \<open>toggled f n\<close> is the same for one tag event named \<open>n\<close>.
\<close>

definition flags_after :: "SolMetadataParseFlags \<Rightarrow> sax_event list \<Rightarrow> SolMetadataParseFlags" where
  "flags_after f evs = flags (xmlParseDocument \<lparr>flags = f, metadata = sol_metadata_new\<rparr> evs)"

definition toggled :: "SolMetadataParseFlags \<Rightarrow> string \<Rightarrow> SolMetadataParseFlags" where
  "toggled f n = flags (sol_sax_flip_states \<lparr>flags = f, metadata = sol_metadata_new\<rparr> n)"

text \<open>Counting tag events, as the parity statements of the specification do.\<close>

definition is_root_tag :: "string \<Rightarrow> bool" where
  "is_root_tag n = (n = ''PISI'' \<or> n = ''SOL'')"

fun tag_name :: "sax_event \<Rightarrow> string option" where
  "tag_name (StartElement n) = Some n"
| "tag_name (EndElement n) = Some n"
| "tag_name (Characters ch) = None"

text \<open>\<open>tag_events k evs\<close>: how many open and close events of \<open>evs\<close> carry the name \<open>k\<close>.\<close>

definition tag_events :: "string \<Rightarrow> sax_event list \<Rightarrow> nat" where
  "tag_events k evs = length (filter (\<lambda>e. tag_name e = Some k) evs)"

text \<open>
  \<open>tag_events_in_root r k evs\<close>: how many open and close events named \<open>k\<close> arrive in
  \<open>evs\<close> at a moment when an odd number of root tag events has gone before (\<open>r\<close> says
  whether that holds at the start of \<open>evs\<close>).
\<close>

fun tag_events_in_root :: "bool \<Rightarrow> string \<Rightarrow> sax_event list \<Rightarrow> nat" where
  "tag_events_in_root r k [] = 0"
| "tag_events_in_root r k (e # es) =
     (case tag_name e of
        None \<Rightarrow> tag_events_in_root r k es
      | Some n \<Rightarrow>
          if is_root_tag n then tag_events_in_root (\<not> r) k es
          else (if r \<and> n = k then 1 else 0) + tag_events_in_root r k es)"

text \<open>
  The two conditions under which a character event is a match: for the package name the
  flags are exactly root, Package and Name; for the component they are anything else
  that contains PartOf.
\<close>

definition matches_package_name :: "SolMetadataParseFlags \<Rightarrow> bool" where
  "matches_package_name f = (f = (MDATA_ROOT OR MDATA_PACKAGE OR MDATA_NAME))"

definition matches_component :: "SolMetadataParseFlags \<Rightarrow> bool" where
  "matches_component f =
     (f \<noteq> (MDATA_ROOT OR MDATA_PACKAGE OR MDATA_NAME) \<and> f AND MDATA_COMPONENT \<noteq> 0)"

text \<open>
  \<open>matching_texts P f evs\<close>: the copied texts of the character events of \<open>evs\<close> that
  arrive while the flags satisfy \<open>P\<close>, in order of arrival, for a parse that starts with
  flags \<open>f\<close>.
\<close>

fun matching_texts ::
  "(SolMetadataParseFlags \<Rightarrow> bool) \<Rightarrow> SolMetadataParseFlags \<Rightarrow> sax_event list \<Rightarrow> string list" where
  "matching_texts P f [] = []"
| "matching_texts P f (e # es) =
     (case e of
        Characters ch \<Rightarrow> (if P f then [strndup ch (length ch)] else [])
      | _ \<Rightarrow> []) @ matching_texts P (flags_after f [e]) es"

text \<open>
  What a document gives on its own: for each field the text of the last character event
  of the document that matches it, and no value when no event does.
\<close>

definition document_fields :: "sax_event list \<Rightarrow> SolMetadata" where
  "document_fields evs =
     \<lparr>package_name =
        (if matching_texts matches_package_name 0 evs = [] then None
         else Some (last (matching_texts matches_package_name 0 evs))),
      component =
        (if matching_texts matches_component 0 evs = [] then None
         else Some (last (matching_texts matches_component 0 evs)))\<rparr>"

text \<open>
  By the counts of tag events alone: after \<open>evs\<close> the names whose events are odd in
  number (for names other than the root's, of those that arrived inside the root) are
  exactly the root, Package and Name.
\<close>

definition counts_root_package_name :: "sax_event list \<Rightarrow> bool" where
  "counts_root_package_name evs =
     (odd (tag_events ''PISI'' evs + tag_events ''SOL'' evs)
      \<and> odd (tag_events_in_root False ''Package'' evs)
      \<and> odd (tag_events_in_root False ''Name'' evs)
      \<and> even (tag_events_in_root False ''History'' evs)
      \<and> even (tag_events_in_root False ''Source'' evs)
      \<and> even (tag_events_in_root False ''PartOf'' evs)
      \<and> even (tag_events_in_root False ''Packager'' evs)
      \<and> even (tag_events_in_root False ''Email'' evs))"

text \<open>Writing one tag name for another in every open and close event of a document.\<close>

definition rename_tag :: "string \<Rightarrow> string \<Rightarrow> sax_event \<Rightarrow> sax_event" where
  "rename_tag old new ev =
     (case ev of
        StartElement n \<Rightarrow> StartElement (if n = old then new else n)
      | EndElement n \<Rightarrow> EndElement (if n = old then new else n)
      | Characters ch \<Rightarrow> Characters ch)"

section \<open>Facts about the handlers\<close>

lemmas mdata_defs = MDATA_MIN_def MDATA_ROOT_def MDATA_PACKAGE_def MDATA_HISTORY_def
  MDATA_SOURCE_def MDATA_NAME_def MDATA_COMPONENT_def MDATA_PACKAGER_def MDATA_EMAIL_def

lemma flip_states_eq:
  "sol_sax_flip_states self n = self\<lparr>flags :=
     (if n = ''PISI'' \<or> n = ''SOL'' then flags self XOR MDATA_ROOT
      else if flags self AND MDATA_ROOT = 0 then flags self
      else if n = ''Package'' then flags self XOR MDATA_PACKAGE
      else if n = ''History'' then flags self XOR MDATA_HISTORY
      else if n = ''Source'' then flags self XOR MDATA_SOURCE
      else if n = ''Name'' then flags self XOR MDATA_NAME
      else if n = ''PartOf'' then flags self XOR MDATA_COMPONENT
      else if n = ''Packager'' then flags self XOR MDATA_PACKAGER
      else if n = ''Email'' then flags self XOR MDATA_EMAIL
      else flags self)\<rparr>"
  by (simp add: sol_sax_flip_states_def sol_sax_flip_state_def xmlStrEqual_def
      sol_sax_in_root_def meta_mapping_def)

lemma flip_states_metadata: "metadata (sol_sax_flip_states self n) = metadata self"
  by (simp add: flip_states_eq)

lemma flip_states_flags:
  "flags (sol_sax_flip_states self n) = flags (sol_sax_flip_states \<lparr>flags = flags self, metadata = m\<rparr> n)"
  by (simp add: flip_states_eq)

lemma characters_flags: "flags (sol_sax_characters self ch len) = flags self"
  by (simp add: sol_sax_characters_def)

lemma dispatch_flags:
  "flags (sax_dispatch self e) = flags_after (flags self) [e]"
  by (cases e)
    (simp_all add: flags_after_def sax_dispatch_def sol_sax_start_element_def
      sol_sax_end_element_def characters_flags flip_states_flags [of self _ sol_metadata_new])

lemma flags_after_Nil: "flags_after f [] = f"
  by (simp add: flags_after_def)

lemma parse_flags: "flags (xmlParseDocument self evs) = flags_after (flags self) evs"
proof (induction evs arbitrary: self)
  case Nil
  show ?case by (simp add: flags_after_def)
next
  case (Cons e es)
  let ?c = "\<lparr>flags = flags self, metadata = sol_metadata_new\<rparr>"
  have same: "flags (sax_dispatch ?c e) = flags (sax_dispatch self e)"
    using dispatch_flags [of ?c e] dispatch_flags [of self e] by simp
  have "flags (xmlParseDocument self (e # es)) = flags_after (flags (sax_dispatch self e)) es"
    using Cons.IH [of "sax_dispatch self e"] by simp
  moreover have "flags_after (flags self) (e # es) = flags (xmlParseDocument (sax_dispatch ?c e) es)"
    by (simp add: flags_after_def)
  moreover have "flags (xmlParseDocument (sax_dispatch ?c e) es) = flags_after (flags (sax_dispatch ?c e)) es"
    by (rule Cons.IH)
  ultimately show ?case
    using same by simp
qed

lemma flags_after_Cons: "flags_after f (e # es) = flags_after (flags_after f [e]) es"
proof -
  let ?c = "\<lparr>flags = f, metadata = sol_metadata_new\<rparr>"
  have "flags_after f (e # es) = flags (xmlParseDocument (sax_dispatch ?c e) es)"
    by (simp add: flags_after_def)
  also have "\<dots> = flags_after (flags (sax_dispatch ?c e)) es"
    by (rule parse_flags)
  also have "flags (sax_dispatch ?c e) = flags_after f [e]"
    using dispatch_flags [of ?c e] by simp
  finally show ?thesis .
qed

lemma dispatch_package_name:
  "package_name (metadata (sax_dispatch self e)) =
     (case e of
        Characters ch \<Rightarrow>
          if matches_package_name (flags self) then Some (strndup ch (length ch))
          else package_name (metadata self)
      | _ \<Rightarrow> package_name (metadata self))"
  by (cases e)
    (simp_all add: sax_dispatch_def sol_sax_start_element_def sol_sax_end_element_def
      flip_states_metadata sol_sax_characters_def matches_package_name_def)

lemma dispatch_component:
  "component (metadata (sax_dispatch self e)) =
     (case e of
        Characters ch \<Rightarrow>
          if matches_component (flags self) then Some (strndup ch (length ch))
          else component (metadata self)
      | _ \<Rightarrow> component (metadata self))"
  by (cases e)
    (simp_all add: sax_dispatch_def sol_sax_start_element_def sol_sax_end_element_def
      flip_states_metadata sol_sax_characters_def matches_component_def)

lemma parse_package_name:
  "package_name (metadata (xmlParseDocument self evs)) =
     (if matching_texts matches_package_name (flags self) evs = [] then package_name (metadata self)
      else Some (last (matching_texts matches_package_name (flags self) evs)))"
proof (induction evs arbitrary: self)
  case Nil
  show ?case by simp
next
  case (Cons e es)
  show ?case
    using Cons.IH [of "sax_dispatch self e"]
    by (cases e) (simp_all add: dispatch_package_name dispatch_flags)
qed

lemma parse_component:
  "component (metadata (xmlParseDocument self evs)) =
     (if matching_texts matches_component (flags self) evs = [] then component (metadata self)
      else Some (last (matching_texts matches_component (flags self) evs)))"
proof (induction evs arbitrary: self)
  case Nil
  show ?case by simp
next
  case (Cons e es)
  show ?case
    using Cons.IH [of "sax_dispatch self e"]
    by (cases e) (simp_all add: dispatch_component dispatch_flags)
qed

lemma dispatch_rename_PISI: "sax_dispatch self (rename_tag ''PISI'' ''SOL'' e) = sax_dispatch self e"
  by (cases e)
    (simp_all add: rename_tag_def sax_dispatch_def sol_sax_start_element_def
      sol_sax_end_element_def flip_states_eq)

lemma dispatch_rename_SOL: "sax_dispatch self (rename_tag ''SOL'' ''PISI'' e) = sax_dispatch self e"
  by (cases e)
    (simp_all add: rename_tag_def sax_dispatch_def sol_sax_start_element_def
      sol_sax_end_element_def flip_states_eq)

lemma parse_rename_PISI:
  "xmlParseDocument self (map (rename_tag ''PISI'' ''SOL'') evs) = xmlParseDocument self evs"
  by (induction evs arbitrary: self) (simp_all add: dispatch_rename_PISI)

lemma parse_rename_SOL:
  "xmlParseDocument self (map (rename_tag ''SOL'' ''PISI'') evs) = xmlParseDocument self evs"
  by (induction evs arbitrary: self) (simp_all add: dispatch_rename_SOL)

lemma and_root_bit: "(f AND MDATA_ROOT = 0) = (\<not> bit f 1)"
  unfolding MDATA_ROOT_def by (simp only: bit_iff_and_push_bit_not_eq_0 [of f 1] simp_thms)

lemma toggled_eq:
  "toggled f n =
     (if n = ''PISI'' \<or> n = ''SOL'' then f XOR MDATA_ROOT
      else if \<not> bit f 1 then f
      else if n = ''Package'' then f XOR MDATA_PACKAGE
      else if n = ''History'' then f XOR MDATA_HISTORY
      else if n = ''Source'' then f XOR MDATA_SOURCE
      else if n = ''Name'' then f XOR MDATA_NAME
      else if n = ''PartOf'' then f XOR MDATA_COMPONENT
      else if n = ''Packager'' then f XOR MDATA_PACKAGER
      else if n = ''Email'' then f XOR MDATA_EMAIL
      else f)"
  by (simp add: toggled_def flip_states_eq and_root_bit)

lemma bit_xor_flag:
  "bit ((f :: 32 word) XOR push_bit m 1) i = (bit f i \<noteq> (i = m \<and> m < 32))"
  by (auto simp add: bit_xor_iff bit_push_bit_iff bit_1_iff simp del: push_bit_of_1)

lemma bit_xor_MDATA:
  "bit (f XOR MDATA_ROOT) i = (bit f i \<noteq> (i = 1))"
  "bit (f XOR MDATA_PACKAGE) i = (bit f i \<noteq> (i = 2))"
  "bit (f XOR MDATA_HISTORY) i = (bit f i \<noteq> (i = 3))"
  "bit (f XOR MDATA_SOURCE) i = (bit f i \<noteq> (i = 4))"
  "bit (f XOR MDATA_NAME) i = (bit f i \<noteq> (i = 5))"
  "bit (f XOR MDATA_COMPONENT) i = (bit f i \<noteq> (i = 6))"
  "bit (f XOR MDATA_PACKAGER) i = (bit f i \<noteq> (i = 7))"
  "bit (f XOR MDATA_EMAIL) i = (bit f i \<noteq> (i = 8))"
  unfolding mdata_defs bit_xor_flag by simp_all

lemma toggled_root: "bit (toggled f n) 1 = (bit f 1 \<noteq> is_root_tag n)"
  by (simp add: toggled_eq is_root_tag_def bit_xor_MDATA)

lemma toggled_Package: "bit (toggled f n) 2 = (bit f 2 \<noteq> (bit f 1 \<and> n = ''Package''))"
  by (simp add: toggled_eq bit_xor_MDATA)

lemma toggled_History: "bit (toggled f n) 3 = (bit f 3 \<noteq> (bit f 1 \<and> n = ''History''))"
  by (simp add: toggled_eq bit_xor_MDATA)

lemma toggled_Source: "bit (toggled f n) 4 = (bit f 4 \<noteq> (bit f 1 \<and> n = ''Source''))"
  by (simp add: toggled_eq bit_xor_MDATA)

lemma toggled_Name: "bit (toggled f n) 5 = (bit f 5 \<noteq> (bit f 1 \<and> n = ''Name''))"
  by (simp add: toggled_eq bit_xor_MDATA)

lemma toggled_PartOf: "bit (toggled f n) 6 = (bit f 6 \<noteq> (bit f 1 \<and> n = ''PartOf''))"
  by (simp add: toggled_eq bit_xor_MDATA)

lemma toggled_Packager: "bit (toggled f n) 7 = (bit f 7 \<noteq> (bit f 1 \<and> n = ''Packager''))"
  by (simp add: toggled_eq bit_xor_MDATA)

lemma toggled_Email: "bit (toggled f n) 8 = (bit f 8 \<noteq> (bit f 1 \<and> n = ''Email''))"
  by (simp add: toggled_eq bit_xor_MDATA)

lemma toggled_MIN: "bit (toggled f n) 0 = bit f 0"
  by (simp add: toggled_eq bit_xor_MDATA)

lemma flags_after_tag_Start: "flags_after f [StartElement n] = toggled f n"
  by (simp add: flags_after_def toggled_def sax_dispatch_def sol_sax_start_element_def)

lemma flags_after_tag_End: "flags_after f [EndElement n] = toggled f n"
  by (simp add: flags_after_def toggled_def sax_dispatch_def sol_sax_end_element_def)

lemma flags_after_tag_Chars: "flags_after f [Characters ch] = f"
  by (simp add: flags_after_def sax_dispatch_def characters_flags)

lemma flags_after_Start: "flags_after f (StartElement n # es) = flags_after (toggled f n) es"
  using flags_after_Cons [of f "StartElement n" es] by (simp only: flags_after_tag_Start)

lemma flags_after_End: "flags_after f (EndElement n # es) = flags_after (toggled f n) es"
  using flags_after_Cons [of f "EndElement n" es] by (simp only: flags_after_tag_End)

lemma flags_after_Chars: "flags_after f (Characters ch # es) = flags_after f es"
  using flags_after_Cons [of f "Characters ch" es] by (simp only: flags_after_tag_Chars)

lemma toggled_root_Suc: "bit (toggled f n) (Suc 0) = (bit f (Suc 0) \<noteq> is_root_tag n)"
  using toggled_root [of f n] by simp

lemmas flags_after_simps = flags_after_Nil flags_after_Start flags_after_End flags_after_Chars

lemma root_parity_Suc:
  "bit (flags_after f evs) (Suc 0) =
     (bit f (Suc 0) \<noteq> odd (tag_events ''PISI'' evs + tag_events ''SOL'' evs))"
proof (induction evs arbitrary: f)
  case Nil
  show ?case by (simp add: flags_after_simps tag_events_def)
next
  case (Cons e es)
  have step: "tag_events ''PISI'' (e # es) + tag_events ''SOL'' (e # es) =
      (case tag_name e of None \<Rightarrow> 0 | Some n \<Rightarrow> if is_root_tag n then 1 else 0) +
      (tag_events ''PISI'' es + tag_events ''SOL'' es)"
    by (cases e) (auto simp add: tag_events_def is_root_tag_def)
  show ?case
    unfolding step
    by (cases e) (auto simp add: flags_after_simps Cons.IH toggled_root_Suc)
qed

lemma root_parity:
  "bit (flags_after f evs) 1 =
     (bit f 1 \<noteq> odd (tag_events ''PISI'' evs + tag_events ''SOL'' evs))"
  using root_parity_Suc [of f evs] by simp

lemma flag_parity:
  assumes tog: "\<And>f n. bit (toggled f n) i = (bit f i \<noteq> (bit f 1 \<and> n = k))"
    and k: "\<not> is_root_tag k"
  shows "bit (flags_after f evs) i = (bit f i \<noteq> odd (tag_events_in_root (bit f 1) k evs))"
proof (induction evs arbitrary: f)
  case Nil
  show ?case by (simp add: flags_after_simps)
next
  case (Cons e es)
  show ?case
  proof (cases e)
    case (StartElement n)
    then show ?thesis
      using k by (auto simp add: flags_after_simps Cons.IH tog toggled_root_Suc)
  next
    case (EndElement n)
    then show ?thesis
      using k by (auto simp add: flags_after_simps Cons.IH tog toggled_root_Suc)
  next
    case (Characters ch)
    then show ?thesis
      by (simp add: flags_after_simps Cons.IH)
  qed
qed

lemma min_never: "bit (flags_after f evs) 0 = bit f 0"
proof (induction evs arbitrary: f)
  case Nil
  show ?case by (simp add: flags_after_simps)
next
  case (Cons e es)
  show ?case by (cases e) (simp_all add: flags_after_simps Cons.IH toggled_MIN)
qed


lemma bit_MDATA:
  "bit MDATA_ROOT i = (i = 1)"
  "bit MDATA_PACKAGE i = (i = 2)"
  "bit MDATA_NAME i = (i = 5)"
  using bit_xor_MDATA(1) [of 0 i] bit_xor_MDATA(2) [of 0 i] bit_xor_MDATA(5) [of 0 i]
  by simp_all

lemma exact_set:
  "(f = (MDATA_ROOT OR MDATA_PACKAGE OR MDATA_NAME)) =
     (\<forall>n. bit f n = (n = 1 \<or> n = 2 \<or> n = 5))"
proof
  assume "f = (MDATA_ROOT OR MDATA_PACKAGE OR MDATA_NAME)"
  then show "\<forall>n. bit f n = (n = 1 \<or> n = 2 \<or> n = 5)"
    by (simp add: bit_or_iff bit_MDATA)
next
  assume a: "\<forall>n. bit f n = (n = 1 \<or> n = 2 \<or> n = 5)"
  show "f = (MDATA_ROOT OR MDATA_PACKAGE OR MDATA_NAME)"
    by (rule bit_eqI) (simp add: a bit_or_iff bit_MDATA)
qed

lemma has_flag_bit:
  "(f AND MDATA_ROOT \<noteq> 0) = bit f 1"
  "(f AND MDATA_PACKAGE \<noteq> 0) = bit f 2"
  "(f AND MDATA_HISTORY \<noteq> 0) = bit f 3"
  "(f AND MDATA_SOURCE \<noteq> 0) = bit f 4"
  "(f AND MDATA_NAME \<noteq> 0) = bit f 5"
  "(f AND MDATA_COMPONENT \<noteq> 0) = bit f 6"
  "(f AND MDATA_PACKAGER \<noteq> 0) = bit f 7"
  "(f AND MDATA_EMAIL \<noteq> 0) = bit f 8"
  "(f AND MDATA_MIN \<noteq> 0) = bit f 0"
  unfolding mdata_defs by (simp_all only: bit_iff_and_push_bit_not_eq_0)

lemma strndup_text: "CHR 0x00 \<notin> set ch \<Longrightarrow> strndup ch (length ch) = ch"
  by (auto simp add: strndup_def takeWhile_eq_all_conv)

lemma load_well_formed:
  "sol_metadata_load meta (Parsed evs True) =
     (True, metadata (xmlParseDocument \<lparr>flags = 0, metadata = meta\<rparr> evs))"
  by (simp add: sol_metadata_load_def)

lemma load_parsed:
  "sol_metadata_load meta (Parsed evs good) =
     (if good then (True, metadata (xmlParseDocument \<lparr>flags = 0, metadata = meta\<rparr> evs))
      else (False, sol_metadata_new))"
  by (simp add: sol_metadata_load_def sol_metadata_clean_def sol_metadata_new_def)

lemmas run_simps = load_parsed sax_dispatch_def sol_sax_start_element_def
  sol_sax_end_element_def flip_states_eq sol_sax_characters_def mdata_defs
  sol_metadata_new_def


lemma parse_chunks:
  "flags self = (MDATA_ROOT OR MDATA_PACKAGE OR MDATA_NAME) \<Longrightarrow>
   xmlParseDocument self (map Characters cs @ rest) =
   xmlParseDocument
     (if cs = [] then self
      else self\<lparr>metadata :=
        (metadata self)\<lparr>package_name := Some (strndup (last cs) (length (last cs)))\<rparr>\<rparr>) rest"
proof (induction cs arbitrary: self)
  case Nil
  show ?case by simp
next
  case (Cons c cs)
  let ?s = "self\<lparr>metadata :=
      (metadata self)\<lparr>package_name := Some (strndup c (length c))\<rparr>\<rparr>"
  have step: "sax_dispatch self (Characters c) = ?s"
    using Cons.prems by (simp add: sax_dispatch_def sol_sax_characters_def)
  have "flags ?s = (MDATA_ROOT OR MDATA_PACKAGE OR MDATA_NAME)"
    using Cons.prems by simp
  from Cons.IH [OF this] show ?case
    by (simp add: step)
qed

lemma start_pkg_name:
  "xmlParseDocument \<lparr>flags = 0, metadata = m\<rparr>
      (StartElement ''PISI'' # StartElement ''Package'' # StartElement ''Name'' # rest) =
   xmlParseDocument \<lparr>flags = MDATA_ROOT OR MDATA_PACKAGE OR MDATA_NAME, metadata = m\<rparr> rest"
  by (simp add: sax_dispatch_def sol_sax_start_element_def flip_states_eq mdata_defs)

lemma end_pkg_name:
  "metadata (xmlParseDocument self [EndElement ''Name'', EndElement ''Package'', EndElement ''PISI'']) =
   metadata self"
  by (simp add: sax_dispatch_def sol_sax_end_element_def flip_states_metadata)

lemma parse_chunks_exact:
  "xmlParseDocument \<lparr>flags = MDATA_ROOT OR MDATA_PACKAGE OR MDATA_NAME, metadata = m\<rparr>
     (map Characters cs @ rest) =
   xmlParseDocument
     \<lparr>flags = MDATA_ROOT OR MDATA_PACKAGE OR MDATA_NAME,
      metadata = (if cs = [] then m
                  else m\<lparr>package_name := Some (strndup (last cs) (length (last cs)))\<rparr>)\<rparr> rest"
  using parse_chunks [of "\<lparr>flags = MDATA_ROOT OR MDATA_PACKAGE OR MDATA_NAME, metadata = m\<rparr>" cs rest]
  by (cases "cs = []") simp_all

lemma in_root_parity:
  "bit (flags_after 0 evs) 2 = odd (tag_events_in_root False ''Package'' evs)"
  "bit (flags_after 0 evs) 3 = odd (tag_events_in_root False ''History'' evs)"
  "bit (flags_after 0 evs) 4 = odd (tag_events_in_root False ''Source'' evs)"
  "bit (flags_after 0 evs) 5 = odd (tag_events_in_root False ''Name'' evs)"
  "bit (flags_after 0 evs) 6 = odd (tag_events_in_root False ''PartOf'' evs)"
  "bit (flags_after 0 evs) 7 = odd (tag_events_in_root False ''Packager'' evs)"
  "bit (flags_after 0 evs) 8 = odd (tag_events_in_root False ''Email'' evs)"
  using flag_parity [OF toggled_Package, of 0 evs] flag_parity [OF toggled_History, of 0 evs]
    flag_parity [OF toggled_Source, of 0 evs] flag_parity [OF toggled_Name, of 0 evs]
    flag_parity [OF toggled_PartOf, of 0 evs] flag_parity [OF toggled_Packager, of 0 evs]
    flag_parity [OF toggled_Email, of 0 evs]
  by (simp_all add: is_root_tag_def)

lemma flag_index_cases:
  "9 \<le> (n::nat) \<or> n = 8 \<or> n = 7 \<or> n = 6 \<or> n = 5 \<or> n = 4 \<or> n = 3 \<or> n = 2
     \<or> n = Suc 0 \<or> n = 0"
  by presburger

lemma toggled_high: "9 \<le> i \<Longrightarrow> bit (toggled f n) i = bit f i"
  by (simp add: toggled_eq bit_xor_MDATA)

lemma toggled_other: "i = 0 \<or> 9 \<le> i \<Longrightarrow> bit (toggled f n) i = bit f i"
  using toggled_high [of i f n] toggled_MIN [of f n] by blast

lemma other_never: "i = 0 \<or> 9 \<le> i \<Longrightarrow> bit (flags_after f evs) i = bit f i"
proof (induction evs arbitrary: f)
  case Nil
  show ?case by (simp add: flags_after_simps)
next
  case (Cons e es)
  then show ?case
    by (cases e) (simp_all add: flags_after_simps toggled_other)
qed

lemma flags_exact_counts:
  "(flags_after 0 evs = (MDATA_ROOT OR MDATA_PACKAGE OR MDATA_NAME)) = counts_root_package_name evs"
proof
  assume "flags_after 0 evs = (MDATA_ROOT OR MDATA_PACKAGE OR MDATA_NAME)"
  then have b: "bit (flags_after 0 evs) n = (n = 1 \<or> n = 2 \<or> n = 5)" for n
    by (simp add: exact_set)
  show "counts_root_package_name evs"
    unfolding counts_root_package_name_def
    using b [of "Suc 0"] b [of 2] b [of 3] b [of 4] b [of 5] b [of 6] b [of 7] b [of 8]
    by (simp add: in_root_parity root_parity_Suc)
next
  assume c: "counts_root_package_name evs"
  have "bit (flags_after 0 evs) n = (n = 1 \<or> n = 2 \<or> n = 5)" for n
  proof -
    consider "n = 0 \<or> 9 \<le> n" | "n = Suc 0" | "n = 2" | "n = 3" | "n = 4" | "n = 5"
      | "n = 6" | "n = 7" | "n = 8"
      using flag_index_cases [of n] by auto
    then show ?thesis
    proof cases
      case 1
      then show ?thesis using other_never [of n 0 evs] by auto
    next
      case 2
      then show ?thesis using c
        by (simp add: counts_root_package_name_def root_parity_Suc)
    next
      case 3
      then show ?thesis using c by (simp add: counts_root_package_name_def in_root_parity)
    next
      case 4
      then show ?thesis using c by (simp add: counts_root_package_name_def in_root_parity)
    next
      case 5
      then show ?thesis using c by (simp add: counts_root_package_name_def in_root_parity)
    next
      case 6
      then show ?thesis using c by (simp add: counts_root_package_name_def in_root_parity)
    next
      case 7
      then show ?thesis using c by (simp add: counts_root_package_name_def in_root_parity)
    next
      case 8
      then show ?thesis using c by (simp add: counts_root_package_name_def in_root_parity)
    next
      case 9
      then show ?thesis using c by (simp add: counts_root_package_name_def in_root_parity)
    qed
  qed
  then show "flags_after 0 evs = (MDATA_ROOT OR MDATA_PACKAGE OR MDATA_NAME)"
    by (simp add: exact_set)
qed


lemma parse_append:
  "xmlParseDocument self (xs @ ys) = xmlParseDocument (xmlParseDocument self xs) ys"
  by (induction xs arbitrary: self) simp_all

lemma parse_then_characters:
  "package_name (metadata (xmlParseDocument \<lparr>flags = 0, metadata = meta\<rparr> (evs @ [Characters X]))) =
     (if counts_root_package_name evs then Some (strndup X (length X))
      else package_name (metadata (xmlParseDocument \<lparr>flags = 0, metadata = meta\<rparr> evs)))"
proof -
  let ?c = "xmlParseDocument \<lparr>flags = 0, metadata = meta\<rparr> evs"
  have "flags ?c = flags_after 0 evs"
    using parse_flags [of "\<lparr>flags = 0, metadata = meta\<rparr>" evs] by simp
  then have "matches_package_name (flags ?c) = counts_root_package_name evs"
    by (simp add: matches_package_name_def flags_exact_counts)
  then show ?thesis
    by (simp add: parse_append dispatch_package_name)
qed

lemma load_well_formed_fields:
  "sol_metadata_load meta (Parsed evs True) =
     (True,
      \<lparr>package_name =
         (if package_name (document_fields evs) = None then package_name meta
          else package_name (document_fields evs)),
       component =
         (if component (document_fields evs) = None then component meta
          else component (document_fields evs))\<rparr>)"
proof -
  let ?c = "\<lparr>flags = 0, metadata = meta\<rparr>"
  have "package_name (metadata (xmlParseDocument ?c evs)) =
      (if package_name (document_fields evs) = None then package_name meta
       else package_name (document_fields evs))"
    using parse_package_name [of ?c evs] by (simp add: document_fields_def)
  moreover have "component (metadata (xmlParseDocument ?c evs)) =
      (if component (document_fields evs) = None then component meta
       else component (document_fields evs))"
    using parse_component [of ?c evs] by (simp add: document_fields_def)
  ultimately show ?thesis
    by (simp add: load_well_formed)
qed

lemma parse_chunks_exact_texts:
  assumes "\<forall>c\<in>set chunks. CHR 0x00 \<notin> set c"
  shows "(if chunks = [] then m
      else m\<lparr>package_name := Some (strndup (last chunks) (length (last chunks)))\<rparr>) =
     (if chunks = [] then m else m\<lparr>package_name := Some (last chunks)\<rparr>)"
proof (cases "chunks = []")
  case True
  then show ?thesis by simp
next
  case False
  then have "CHR 0x00 \<notin> set (last chunks)"
    using assms by simp
  then have "strndup (last chunks) (length (last chunks)) = last chunks"
    by (rule strndup_text)
  then show ?thesis by simp
qed

section \<open>Reloading a record\<close>

text \<open>
  C1, as the code has it. \<^verbatim>\<open>sol_metadata_load\<close> does not reset the record before the
  parse: the context is made with the record as it stands, and the only writes are those
  of the character handler. After a load whose parse is well-formed, load returns true
  and each field holds the text of the last character event of this parse that matched
  it; a field that no event of this parse matched keeps the value it had before the
  call. So loading A and then B gives B's value for every field B sets, and A's value
  for a field that A set and B does not.
\<close>

theorem load_keeps_unset_fields:
  "sol_metadata_load meta (Parsed evs True) =
     (True,
      \<lparr>package_name =
         (if matching_texts matches_package_name 0 evs = [] then package_name meta
          else Some (last (matching_texts matches_package_name 0 evs))),
       component =
         (if matching_texts matches_component 0 evs = [] then component meta
          else Some (last (matching_texts matches_component 0 evs)))\<rparr>)"
proof -
  let ?c = "\<lparr>flags = 0, metadata = meta\<rparr>"
  have "package_name (metadata (xmlParseDocument ?c evs)) =
      (if matching_texts matches_package_name 0 evs = [] then package_name meta
       else Some (last (matching_texts matches_package_name 0 evs)))"
    using parse_package_name [of ?c evs] by simp
  moreover have "component (metadata (xmlParseDocument ?c evs)) =
      (if matching_texts matches_component 0 evs = [] then component meta
       else Some (last (matching_texts matches_component 0 evs)))"
    using parse_component [of ?c evs] by simp
  ultimately show ?thesis
    by (simp add: load_well_formed)
qed

text \<open>
  The theorem at the record left by a load of
  \<^verbatim>\<open><SOL><Package><Name>nano</Name></Package></SOL>\<close>, reloaded with
  \<^verbatim>\<open><SOL><PartOf>editor</PartOf></SOL>\<close>.
\<close>

theorem load_keeps_unset_fields_witness:
  "sol_metadata_load \<lparr>package_name = Some ''nano'', component = None\<rparr>
     (Parsed [StartElement ''SOL'', StartElement ''PartOf'', Characters ''editor'',
              EndElement ''PartOf'', EndElement ''SOL''] True) =
   (True, \<lparr>package_name = Some ''nano'', component = Some ''editor''\<rparr>)"
  using load_keeps_unset_fields
    [of "\<lparr>package_name = Some ''nano'', component = None\<rparr>"
        "[StartElement ''SOL'', StartElement ''PartOf'', Characters ''editor'',
          EndElement ''PartOf'', EndElement ''SOL'']"]
  by (simp add: flags_after_simps toggled_eq matches_package_name_def matches_component_def
      mdata_defs strndup_def)

text \<open>
  C1 as stated fails: load A, then load B into the same record, where B is well-formed
  and none of its events sets the package name. The package name A left is still
  there, where a fresh record loaded with B has none.
\<close>

theorem reload_residue_counterexample:
  "package_name (snd (sol_metadata_load
      (snd (sol_metadata_load sol_metadata_new
         (Parsed [StartElement ''SOL'', StartElement ''Package'', StartElement ''Name'',
                  Characters ''nano'', EndElement ''Name'', EndElement ''Package'',
                  EndElement ''SOL''] True)))
      (Parsed [StartElement ''SOL'', StartElement ''PartOf'', Characters ''editor'',
               EndElement ''PartOf'', EndElement ''SOL''] True))) = Some ''nano''
   \<and> package_name (snd (sol_metadata_load sol_metadata_new
      (Parsed [StartElement ''SOL'', StartElement ''PartOf'', Characters ''editor'',
               EndElement ''PartOf'', EndElement ''SOL''] True))) = None"
  by (simp add: run_simps strndup_def)

text \<open>
  C2, as the code has it. A load whose document is not well-formed leaves both fields
  absent, whatever the record held. On a record whose two fields are absent before the
  call, a well-formed load leaves exactly the document's values (\<open>document_fields\<close>:
  for each field the text of its last matching character event, none if there is no
  such event), and a load that gets no parse context leaves both absent. On any
  record, a well-formed load leaves the document's value in each field the document
  sets and the record's previous value in each field it does not set.
\<close>

theorem load_invariant_from_absent:
  assumes "package_name meta = None" and "component meta = None"
  shows "sol_metadata_load meta' (Parsed evs False) = (False, sol_metadata_new)
    \<and> sol_metadata_load meta (Parsed evs True) = (True, document_fields evs)
    \<and> sol_metadata_load meta NoContext = (False, sol_metadata_new)
    \<and> sol_metadata_load meta' (Parsed evs True) =
        (True,
         \<lparr>package_name =
            (if package_name (document_fields evs) = None then package_name meta'
             else package_name (document_fields evs)),
          component =
            (if component (document_fields evs) = None then component meta'
             else component (document_fields evs))\<rparr>)"
proof -
  have new: "meta = sol_metadata_new"
    using assms by (simp add: sol_metadata_new_def)
  have "sol_metadata_load meta (Parsed evs True) = (True, document_fields evs)"
    unfolding load_well_formed_fields [of meta evs] using assms by simp
  moreover have "sol_metadata_load meta' (Parsed evs False) = (False, sol_metadata_new)"
    by (simp add: load_parsed)
  moreover have "sol_metadata_load meta NoContext = (False, sol_metadata_new)"
    using new by (simp add: sol_metadata_load_def)
  ultimately show ?thesis
    using load_well_formed_fields [of meta' evs] by simp
qed

theorem load_invariant_from_absent_witness:
  "sol_metadata_load \<lparr>package_name = None, component = None\<rparr>
     (Parsed [StartElement ''PISI'', StartElement ''PartOf'', Characters ''system.base'',
              EndElement ''PartOf'', EndElement ''PISI''] True) =
   (True, \<lparr>package_name = None, component = Some ''system.base''\<rparr>)
   \<and> document_fields [StartElement ''PISI'', StartElement ''PartOf'', Characters ''system.base'',
              EndElement ''PartOf'', EndElement ''PISI''] =
     \<lparr>package_name = None, component = Some ''system.base''\<rparr>
   \<and> sol_metadata_load \<lparr>package_name = Some ''nano'', component = Some ''editor''\<rparr>
     (Parsed [StartElement ''PISI'', StartElement ''PartOf'', Characters ''system.base'',
              EndElement ''PartOf'', EndElement ''PISI''] True) =
   (True, \<lparr>package_name = Some ''nano'', component = Some ''system.base''\<rparr>)
   \<and> sol_metadata_load \<lparr>package_name = Some ''nano'', component = Some ''editor''\<rparr>
     (Parsed [StartElement ''PISI'', StartElement ''PartOf'', Characters ''system.base'',
              EndElement ''PartOf'', EndElement ''PISI''] False) =
   (False, \<lparr>package_name = None, component = None\<rparr>)"
proof -
  have d: "document_fields [StartElement ''PISI'', StartElement ''PartOf'', Characters ''system.base'',
              EndElement ''PartOf'', EndElement ''PISI''] =
     \<lparr>package_name = None, component = Some ''system.base''\<rparr>"
    by (simp add: document_fields_def flags_after_simps toggled_eq matches_package_name_def
        matches_component_def mdata_defs strndup_def)
  show ?thesis
    using load_invariant_from_absent
      [of "\<lparr>package_name = None, component = None\<rparr>"
          "\<lparr>package_name = Some ''nano'', component = Some ''editor''\<rparr>"
          "[StartElement ''PISI'', StartElement ''PartOf'', Characters ''system.base'',
            EndElement ''PartOf'', EndElement ''PISI'']"]
    by (simp add: d sol_metadata_new_def)
qed

text \<open>
  C2 as stated fails: after a load of \<^verbatim>\<open><PISI><PartOf>system.base</PartOf></PISI>\<close>
  and then of \<^verbatim>\<open><PISI><Package><Name>nano</Name></Package></PISI>\<close>, both
  well-formed, the record holds the second document's package name and the first
  document's component: neither the second document's values nor two absent fields.
\<close>

theorem load_invariant_counterexample:
  "snd (sol_metadata_load
      (snd (sol_metadata_load sol_metadata_new
         (Parsed [StartElement ''PISI'', StartElement ''PartOf'', Characters ''system.base'',
                  EndElement ''PartOf'', EndElement ''PISI''] True)))
      (Parsed [StartElement ''PISI'', StartElement ''Package'', StartElement ''Name'',
               Characters ''nano'', EndElement ''Name'', EndElement ''Package'',
               EndElement ''PISI''] True)) =
     \<lparr>package_name = Some ''nano'', component = Some ''system.base''\<rparr>
   \<and> snd (sol_metadata_load sol_metadata_new
      (Parsed [StartElement ''PISI'', StartElement ''Package'', StartElement ''Name'',
               Characters ''nano'', EndElement ''Name'', EndElement ''Package'',
               EndElement ''PISI''] True)) =
     \<lparr>package_name = Some ''nano'', component = None\<rparr>"
  by (simp add: run_simps strndup_def)

section \<open>Failure paths of load\<close>

text \<open>
  C3. When the tokenizer's verdict is "not well-formed", load returns false and both
  fields are absent afterwards, whatever the record held before and whatever the
  events of the parse wrote into it.
\<close>

theorem load_malformed_clears:
  "sol_metadata_load meta (Parsed evs False) = (False, sol_metadata_new)
   \<and> sol_metadata_get_package_name (snd (sol_metadata_load meta (Parsed evs False))) = None
   \<and> sol_metadata_get_component (snd (sol_metadata_load meta (Parsed evs False))) = None"
  by (simp add: sol_metadata_load_def sol_metadata_clean_def sol_metadata_new_def
      sol_metadata_get_package_name_def sol_metadata_get_component_def)

text \<open>
  C4. When no parse context can be made for the source, load returns false and the
  record is the one it was given: both fields keep their values.
\<close>

theorem load_no_context_unchanged:
  "sol_metadata_load meta NoContext = (False, meta)"
  by (simp add: sol_metadata_load_def)

section \<open>What a character event writes\<close>

text \<open>
  C5, as the code has it. A character event sets the package name to its text exactly
  when the flags are root, Package and Name and no others (bits 1, 2 and 5 of the mask,
  nothing else); under any other flags the package name is left as it was. The text
  stored is the C string \<^verbatim>\<open>strndup\<close> copies from the event's \<open>len\<close> bytes. The flags
  follow the counts of tag events, not the nesting of elements: a character event
  after the events \<open>evs\<close> of a parse sets the package name exactly when the counts of
  \<open>evs\<close> single out root, Package and Name. So text that arrives while the Package
  count is even never reaches the package name, as with a Name element directly under
  the root, in either spelling of the root.
\<close>

theorem characters_package_name_exact:
  "package_name (metadata (sol_sax_characters self ch len)) =
     (if flags self = (MDATA_ROOT OR MDATA_PACKAGE OR MDATA_NAME) then Some (strndup ch len)
      else package_name (metadata self))
   \<and> (flags self = (MDATA_ROOT OR MDATA_PACKAGE OR MDATA_NAME)) =
       (\<forall>n. bit (flags self) n = (n = 1 \<or> n = 2 \<or> n = 5))
   \<and> package_name (metadata (xmlParseDocument \<lparr>flags = 0, metadata = meta\<rparr>
         (evs @ [Characters X]))) =
       (if counts_root_package_name evs then Some (strndup X (length X))
        else package_name (metadata (xmlParseDocument \<lparr>flags = 0, metadata = meta\<rparr> evs)))
   \<and> (even (tag_events_in_root False ''Package'' evs) \<longrightarrow>
        package_name (metadata (xmlParseDocument \<lparr>flags = 0, metadata = meta\<rparr>
          (evs @ [Characters X]))) =
        package_name (metadata (xmlParseDocument \<lparr>flags = 0, metadata = meta\<rparr> evs)))
   \<and> sol_metadata_get_package_name (snd (sol_metadata_load sol_metadata_new
        (Parsed [StartElement ''SOL'', StartElement ''Name'', Characters X,
                 EndElement ''Name'', EndElement ''SOL''] good))) = None
   \<and> sol_metadata_get_package_name (snd (sol_metadata_load sol_metadata_new
        (Parsed [StartElement ''PISI'', StartElement ''Name'', Characters X,
                 EndElement ''Name'', EndElement ''PISI''] good))) = None"
proof -
  have "package_name (metadata (sol_sax_characters self ch len)) =
     (if flags self = (MDATA_ROOT OR MDATA_PACKAGE OR MDATA_NAME) then Some (strndup ch len)
      else package_name (metadata self))"
    by (simp add: sol_sax_characters_def)
  moreover have "sol_metadata_get_package_name (snd (sol_metadata_load sol_metadata_new
        (Parsed [StartElement ''SOL'', StartElement ''Name'', Characters X,
                 EndElement ''Name'', EndElement ''SOL''] good))) = None"
    by (simp add: run_simps sol_metadata_get_package_name_def)
  moreover have "sol_metadata_get_package_name (snd (sol_metadata_load sol_metadata_new
        (Parsed [StartElement ''PISI'', StartElement ''Name'', Characters X,
                 EndElement ''Name'', EndElement ''PISI''] good))) = None"
    by (simp add: run_simps sol_metadata_get_package_name_def)
  moreover have "even (tag_events_in_root False ''Package'' evs) \<longrightarrow>
        package_name (metadata (xmlParseDocument \<lparr>flags = 0, metadata = meta\<rparr>
          (evs @ [Characters X]))) =
        package_name (metadata (xmlParseDocument \<lparr>flags = 0, metadata = meta\<rparr> evs))"
    unfolding parse_then_characters by (simp add: counts_root_package_name_def)
  ultimately show ?thesis
    using exact_set [of "flags self"] parse_then_characters [of meta evs X] by simp
qed

text \<open>
  The theorem at a record that holds other values, with a buffer longer than \<open>len\<close>; at
  the events \<^verbatim>\<open><SOL><Package><Name>\<close> followed by text; and at \<^verbatim>\<open><SOL><Name>\<close> followed
  by text.
\<close>

theorem characters_package_name_exact_witness:
  "package_name (metadata (sol_sax_characters
      \<lparr>flags = MDATA_ROOT OR MDATA_PACKAGE OR MDATA_NAME,
       metadata = \<lparr>package_name = Some ''old'', component = Some ''editor''\<rparr>\<rparr>
      ''nano-6.2'' 4)) = Some ''nano''
   \<and> package_name (metadata (xmlParseDocument
        \<lparr>flags = 0, metadata = \<lparr>package_name = None, component = None\<rparr>\<rparr>
        ([StartElement ''SOL'', StartElement ''Package'', StartElement ''Name'']
         @ [Characters ''nano'']))) = Some ''nano''
   \<and> package_name (metadata (xmlParseDocument
        \<lparr>flags = 0, metadata = \<lparr>package_name = None, component = None\<rparr>\<rparr>
        ([StartElement ''SOL'', StartElement ''Name''] @ [Characters ''nano'']))) = None"
proof -
  have a: "counts_root_package_name
      [StartElement ''SOL'', StartElement ''Package'', StartElement ''Name'']"
    by (simp add: counts_root_package_name_def tag_events_def is_root_tag_def)
  have b: "even (tag_events_in_root False ''Package''
      [StartElement ''SOL'', StartElement ''Name''])"
    by (simp add: is_root_tag_def)
  show ?thesis
    using characters_package_name_exact
      [of "\<lparr>flags = MDATA_ROOT OR MDATA_PACKAGE OR MDATA_NAME,
            metadata = \<lparr>package_name = Some ''old'', component = Some ''editor''\<rparr>\<rparr>"
          "''nano-6.2''" 4 "\<lparr>package_name = None, component = None\<rparr>"
          "[StartElement ''SOL'', StartElement ''Package'', StartElement ''Name'']" "''nano''"]
      characters_package_name_exact
      [of _ _ _ "\<lparr>package_name = None, component = None\<rparr>"
          "[StartElement ''SOL'', StartElement ''Name'']" "''nano''"]
      a b
    by (simp add: strndup_def sax_dispatch_def sol_sax_start_element_def flip_states_eq mdata_defs)
qed

text \<open>
  C5 as stated fails: that the text of a Name element populates the package name only
  when Name is exactly inside Package inside the root. A Name element under an
  unrecognized element inside Package, and a Package element inside Name, both leave
  the flags at exactly root, Package and Name, and the text is stored.
\<close>

theorem characters_package_name_counterexample:
  "sol_metadata_load sol_metadata_new
     (Parsed [StartElement ''SOL'', StartElement ''Package'', StartElement ''Foo'',
              StartElement ''Name'', Characters ''nano'', EndElement ''Name'',
              EndElement ''Foo'', EndElement ''Package'', EndElement ''SOL''] True) =
   (True, \<lparr>package_name = Some ''nano'', component = None\<rparr>)
   \<and> sol_metadata_load sol_metadata_new
     (Parsed [StartElement ''SOL'', StartElement ''Name'', StartElement ''Package'',
              Characters ''nano'', EndElement ''Package'', EndElement ''Name'',
              EndElement ''SOL''] True) =
   (True, \<lparr>package_name = Some ''nano'', component = None\<rparr>)"
  by (simp add: run_simps strndup_def)





section \<open>Documents\<close>

text \<open>
  C9, as the code has it. The document \<^verbatim>\<open><PISI><Package><Name>X</Name></Package></PISI>\<close>,
  well-formed, loaded into a new record: load returns true and the component is
  absent; the package name is the text of the last character event the tokenizer
  delivers inside Name. That is X when X arrives as one event (\<open>chunks = [X]\<close>); it is
  the last piece alone when the tokenizer hands X over in several events; and it is
  absent when Name is empty and no character event arrives (\<open>chunks = []\<close>). The text
  is XML character data, so no piece holds a NUL byte.
\<close>

theorem load_package_name_document:
  assumes "\<forall>c\<in>set chunks. CHR 0x00 \<notin> set c"
  shows "sol_metadata_load sol_metadata_new
      (Parsed ([StartElement ''PISI'', StartElement ''Package'', StartElement ''Name'']
               @ map Characters chunks
               @ [EndElement ''Name'', EndElement ''Package'', EndElement ''PISI'']) True) =
     (True, \<lparr>package_name = (if chunks = [] then None else Some (last chunks)),
             component = None\<rparr>)
   \<and> sol_metadata_get_package_name (snd (sol_metadata_load sol_metadata_new
      (Parsed ([StartElement ''PISI'', StartElement ''Package'', StartElement ''Name'']
               @ map Characters chunks
               @ [EndElement ''Name'', EndElement ''Package'', EndElement ''PISI'']) True)))
       = (if chunks = [] then None else Some (last chunks))
   \<and> sol_metadata_get_component (snd (sol_metadata_load sol_metadata_new
      (Parsed ([StartElement ''PISI'', StartElement ''Package'', StartElement ''Name'']
               @ map Characters chunks
               @ [EndElement ''Name'', EndElement ''Package'', EndElement ''PISI'']) True)))
       = None"
proof -
  have split: "[StartElement ''PISI'', StartElement ''Package'', StartElement ''Name'']
        @ map Characters chunks
        @ [EndElement ''Name'', EndElement ''Package'', EndElement ''PISI''] =
      StartElement ''PISI'' # StartElement ''Package'' # StartElement ''Name'' #
        (map Characters chunks
          @ [EndElement ''Name'', EndElement ''Package'', EndElement ''PISI''])"
    by simp
  show ?thesis
    unfolding load_well_formed split start_pkg_name parse_chunks_exact end_pkg_name
      parse_chunks_exact_texts [OF assms]
    by (simp add: sol_metadata_new_def sol_metadata_get_package_name_def
        sol_metadata_get_component_def)
qed

theorem load_package_name_document_witness:
  "sol_metadata_load sol_metadata_new
      (Parsed [StartElement ''PISI'', StartElement ''Package'', StartElement ''Name'',
               Characters ''nano'', EndElement ''Name'', EndElement ''Package'',
               EndElement ''PISI''] True) =
     (True, \<lparr>package_name = Some ''nano'', component = None\<rparr>)
   \<and> sol_metadata_load sol_metadata_new
      (Parsed [StartElement ''PISI'', StartElement ''Package'', StartElement ''Name'',
               Characters ''AT'', Characters ''&'', Characters ''T'',
               EndElement ''Name'', EndElement ''Package'', EndElement ''PISI''] True) =
     (True, \<lparr>package_name = Some ''T'', component = None\<rparr>)
   \<and> sol_metadata_load sol_metadata_new
      (Parsed [StartElement ''PISI'', StartElement ''Package'', StartElement ''Name'',
               EndElement ''Name'', EndElement ''Package'', EndElement ''PISI''] True) =
     (True, \<lparr>package_name = None, component = None\<rparr>)"
  using load_package_name_document [of "[''nano'']"]
    load_package_name_document [of "[''AT'', ''&'', ''T'']"]
    load_package_name_document [of "[]"]
  by simp

text \<open>
  C9 as stated fails when the text of Name does not arrive in one piece. For
  \<^verbatim>\<open><PISI><Package><Name>a&amp;b</Name></Package></PISI>\<close> the text is \<^verbatim>\<open>a&b\<close>; a SAX
  tokenizer hands over the run before the entity reference, the entity's value and the
  run after it as three character events, and the package name is the last one alone.
\<close>

theorem load_package_name_document_counterexample:
  "sol_metadata_get_package_name (snd (sol_metadata_load sol_metadata_new
      (Parsed [StartElement ''PISI'', StartElement ''Package'', StartElement ''Name'',
               Characters ''a'', Characters ''&'', Characters ''b'',
               EndElement ''Name'', EndElement ''Package'', EndElement ''PISI''] True))) =
     Some ''b''
   \<and> ''a'' @ ''&'' @ ''b'' \<noteq> ''b''"
  by (simp add: run_simps strndup_def sol_metadata_get_package_name_def)

text \<open>
  C8, as the code has it. The handlers cannot tell the two spellings of the root
  apart: writing SOL for every PISI tag of a parse, or PISI for every SOL tag, leaves
  the context the same after the events, and so, for one and the same verdict of the
  tokenizer, what load returns and the record it leaves, hence both accessors'
  answers.
\<close>

theorem root_spelling_interchangeable:
  "xmlParseDocument self (map (rename_tag ''PISI'' ''SOL'') evs) = xmlParseDocument self evs
   \<and> xmlParseDocument self (map (rename_tag ''SOL'' ''PISI'') evs) = xmlParseDocument self evs
   \<and> sol_metadata_load meta (Parsed (map (rename_tag ''PISI'' ''SOL'') evs) good) =
     sol_metadata_load meta (Parsed evs good)
   \<and> sol_metadata_load meta (Parsed (map (rename_tag ''SOL'' ''PISI'') evs) good) =
     sol_metadata_load meta (Parsed evs good)"
  by (simp add: sol_metadata_load_def parse_rename_PISI parse_rename_SOL)

theorem root_spelling_interchangeable_witness:
  "map (rename_tag ''PISI'' ''SOL'')
     [StartElement ''PISI'', StartElement ''Package'', StartElement ''Name'',
      Characters ''PISI'', EndElement ''Name'', EndElement ''Package'', EndElement ''PISI''] =
     [StartElement ''SOL'', StartElement ''Package'', StartElement ''Name'',
      Characters ''PISI'', EndElement ''Name'', EndElement ''Package'', EndElement ''SOL'']
   \<and> sol_metadata_load sol_metadata_new
     (Parsed [StartElement ''PISI'', StartElement ''Package'', StartElement ''Name'',
      Characters ''PISI'', EndElement ''Name'', EndElement ''Package'', EndElement ''PISI''] True) =
     (True, \<lparr>package_name = Some ''PISI'', component = None\<rparr>)
   \<and> sol_metadata_load sol_metadata_new
     (Parsed [StartElement ''SOL'', StartElement ''Package'', StartElement ''Name'',
      Characters ''PISI'', EndElement ''Name'', EndElement ''Package'', EndElement ''SOL''] True) =
     (True, \<lparr>package_name = Some ''PISI'', component = None\<rparr>)"
proof -
  have r: "map (rename_tag ''PISI'' ''SOL'')
     [StartElement ''PISI'', StartElement ''Package'', StartElement ''Name'',
      Characters ''PISI'', EndElement ''Name'', EndElement ''Package'', EndElement ''PISI''] =
     [StartElement ''SOL'', StartElement ''Package'', StartElement ''Name'',
      Characters ''PISI'', EndElement ''Name'', EndElement ''Package'', EndElement ''SOL'']"
    by (simp add: rename_tag_def)
  have l: "sol_metadata_load sol_metadata_new
     (Parsed [StartElement ''PISI'', StartElement ''Package'', StartElement ''Name'',
      Characters ''PISI'', EndElement ''Name'', EndElement ''Package'', EndElement ''PISI''] True) =
     (True, \<lparr>package_name = Some ''PISI'', component = None\<rparr>)"
    by (simp add: run_simps strndup_def)
  show ?thesis
    using root_spelling_interchangeable
      [of _ "[StartElement ''PISI'', StartElement ''Package'', StartElement ''Name'',
        Characters ''PISI'', EndElement ''Name'', EndElement ''Package'', EndElement ''PISI'']"
        sol_metadata_new True]
    unfolding r l by simp
qed

text \<open>
  C8 as stated fails for a document that mixes the spellings: the verdict is the
  tokenizer's, and the replacement can change it.
  \<^verbatim>\<open><PISI><PartOf>x</PartOf></SOL>\<close> is not well-formed, its closing tag does not match,
  and the parse stops there; with SOL written for PISI it is
  \<^verbatim>\<open><SOL><PartOf>x</PartOf></SOL>\<close>, well-formed. Load returns false and clears the
  record for the first, and returns true with the component for the second.
\<close>

theorem root_spelling_counterexample:
  "sol_metadata_load sol_metadata_new
     (Parsed [StartElement ''PISI'', StartElement ''PartOf'', Characters ''x'',
              EndElement ''PartOf''] False) =
     (False, \<lparr>package_name = None, component = None\<rparr>)
   \<and> sol_metadata_load sol_metadata_new
     (Parsed [StartElement ''SOL'', StartElement ''PartOf'', Characters ''x'',
              EndElement ''PartOf'', EndElement ''SOL''] True) =
     (True, \<lparr>package_name = None, component = Some ''x''\<rparr>)"
  by (simp add: run_simps strndup_def)

section \<open>The flags and the parity of tag events\<close>

text \<open>
  C7, as the code has it. At every point of a parse, that is after every list \<open>evs\<close> of
  events from its start: the root flag is set exactly when the open and close events
  seen for PISI and SOL together are odd in number; the flag of each other recognized
  name is set exactly when an odd number of its open and close events arrived while
  the root flag was set, for the handler ignores such an event while the root flag is
  clear; and the flag \<^verbatim>\<open>MDATA_MIN\<close> is never set.
\<close>

theorem toggle_parity_in_root:
  "sol_sax_in_root (xmlParseDocument \<lparr>flags = 0, metadata = meta\<rparr> evs) =
     odd (tag_events ''PISI'' evs + tag_events ''SOL'' evs)
   \<and> (flags (xmlParseDocument \<lparr>flags = 0, metadata = meta\<rparr> evs) AND MDATA_PACKAGE \<noteq> 0) =
     odd (tag_events_in_root False ''Package'' evs)
   \<and> (flags (xmlParseDocument \<lparr>flags = 0, metadata = meta\<rparr> evs) AND MDATA_HISTORY \<noteq> 0) =
     odd (tag_events_in_root False ''History'' evs)
   \<and> (flags (xmlParseDocument \<lparr>flags = 0, metadata = meta\<rparr> evs) AND MDATA_SOURCE \<noteq> 0) =
     odd (tag_events_in_root False ''Source'' evs)
   \<and> (flags (xmlParseDocument \<lparr>flags = 0, metadata = meta\<rparr> evs) AND MDATA_NAME \<noteq> 0) =
     odd (tag_events_in_root False ''Name'' evs)
   \<and> (flags (xmlParseDocument \<lparr>flags = 0, metadata = meta\<rparr> evs) AND MDATA_COMPONENT \<noteq> 0) =
     odd (tag_events_in_root False ''PartOf'' evs)
   \<and> (flags (xmlParseDocument \<lparr>flags = 0, metadata = meta\<rparr> evs) AND MDATA_PACKAGER \<noteq> 0) =
     odd (tag_events_in_root False ''Packager'' evs)
   \<and> (flags (xmlParseDocument \<lparr>flags = 0, metadata = meta\<rparr> evs) AND MDATA_EMAIL \<noteq> 0) =
     odd (tag_events_in_root False ''Email'' evs)
   \<and> flags (xmlParseDocument \<lparr>flags = 0, metadata = meta\<rparr> evs) AND MDATA_MIN = 0"
proof -
  have fl: "flags (xmlParseDocument \<lparr>flags = 0, metadata = meta\<rparr> evs) = flags_after 0 evs"
    using parse_flags [of "\<lparr>flags = 0, metadata = meta\<rparr>" evs] by simp
  have min: "flags_after 0 evs AND MDATA_MIN = 0"
    using has_flag_bit(9) [of "flags_after 0 evs"] min_never [of 0 evs] by simp
  show ?thesis
    unfolding sol_sax_in_root_def fl has_flag_bit in_root_parity
    using root_parity [of 0 evs] min by simp
qed

text \<open>
  The theorem at the events \<^verbatim>\<open><Package><SOL><Package>\<close>: two Package events seen, one of
  them inside the root, and the Package flag is set.
\<close>

theorem toggle_parity_in_root_witness:
  "flags (xmlParseDocument \<lparr>flags = 0, metadata = sol_metadata_new\<rparr>
      [StartElement ''Package'', StartElement ''SOL'', StartElement ''Package''])
     AND MDATA_PACKAGE \<noteq> 0
   \<and> tag_events_in_root False ''Package''
      [StartElement ''Package'', StartElement ''SOL'', StartElement ''Package''] = 1
   \<and> tag_events ''Package''
      [StartElement ''Package'', StartElement ''SOL'', StartElement ''Package''] = 2"
  using toggle_parity_in_root
    [of sol_metadata_new "[StartElement ''Package'', StartElement ''SOL'', StartElement ''Package'']"]
  by (simp add: is_root_tag_def tag_events_def)

text \<open>
  C7 as stated fails for a tag that arrives outside the root: after the single event
  \<^verbatim>\<open><Package>\<close> one Package event has been seen, an odd number, and the Package flag
  is not set.
\<close>

theorem toggle_parity_counterexample:
  "odd (tag_events ''Package'' [StartElement ''Package''])
   \<and> flags (xmlParseDocument \<lparr>flags = 0, metadata = sol_metadata_new\<rparr>
        [StartElement ''Package'']) AND MDATA_PACKAGE = 0"
  by (simp add: tag_events_def run_simps)

end
